theory Spec2Isabelle
  imports Complex_Main
begin

section \<open>Percent spliced-in from junction reads: \<open>outrigger/psi/compute.py\<close>\<close>

text \<open>
  The module works on pandas objects. A Series of junction reads is a list of cells, a
  cell being an integer read count or the missing value \<open>NaN\<close>, which fails every
  comparison and is skipped by \<open>sum\<close>. Read counts are 64-bit signed integers:
  products and sums of counts wrap around, and \<open>wrap64\<close> writes that out. (A Series
  that holds a missing value is a Series of doubles, with which this agrees as long as
  counts, products and sums stay within \<open>2 ^ 53\<close> in absolute value.) A Series with
  labels (one sample's row) is a list of label and cell pairs, a table of samples is a
  list of sample id and row pairs. An exception of the Python code is the left summand
  of the result.

  Python names that start with an underscore are written without it. The parameter
  list of \<open>_single_sample_maybe_sufficient_reads\<close> is read as
  \<open>(isoform1, isoform2, n_junctions, min_reads, case, letters='ab')\<close>, which is how
  every caller uses it; \<open>pdb.set_trace()\<close> is taken to continue.
\<close>

subsection \<open>Values\<close>

datatype error =
  IndexError | KeyError | ValueError | TypeError | UnboundLocalError | AttributeError

text \<open>
  The value a 64-bit signed integer operation leaves for the exact result \<open>x\<close>, and the
  integers that such an operation leaves as they are.
\<close>

definition wrap64 :: "int \<Rightarrow> int" where
  "wrap64 x = (x + 2 ^ 63) mod 2 ^ 64 - 2 ^ 63"

definition int64 :: "int \<Rightarrow> bool" where
  "int64 x = (- (2 ^ 63) \<le> x \<and> x < 2 ^ 63)"

datatype cell = Count int | NaN

type_synonym junction = string
type_synonym sample_id = string
type_synonym row = "(junction \<times> cell) list"
type_synonym frame = "(sample_id \<times> row) list"

text \<open>Element-wise comparisons of a Series with a number, and of two cells.\<close>

fun cell_ge :: "cell \<Rightarrow> int \<Rightarrow> bool" where
  "cell_ge (Count v) m = (m \<le> v)"
| "cell_ge NaN m = False"

fun cell_lt :: "cell \<Rightarrow> int \<Rightarrow> bool" where
  "cell_lt (Count v) m = (v < m)"
| "cell_lt NaN m = False"

fun cell_eq :: "cell \<Rightarrow> int \<Rightarrow> bool" where
  "cell_eq (Count v) m = (v = m)"
| "cell_eq NaN m = False"

fun cell_gt :: "cell \<Rightarrow> cell \<Rightarrow> bool" where
  "cell_gt (Count a) (Count b) = (b < a)"
| "cell_gt _ _ = False"

fun cell_times :: "cell \<Rightarrow> int \<Rightarrow> cell" where
  "cell_times (Count v) k = Count (wrap64 (v * k))"
| "cell_times NaN k = NaN"

text \<open>\<open>Series.sum()\<close> skips missing values and adds in 64 bits.\<close>

fun series_sum :: "cell list \<Rightarrow> int" where
  "series_sum [] = 0"
| "series_sum (Count v # cs) = wrap64 (v + series_sum cs)"
| "series_sum (NaN # cs) = series_sum cs"

text \<open>\<open>letters[i]\<close> on a Python string.\<close>

definition str_index :: "string \<Rightarrow> nat \<Rightarrow> error + char" where
  "str_index s i = (if i < length s then Inr (s ! i) else Inl IndexError)"

subsection \<open>Coverage filter\<close>

text \<open>
  \<open>_single_sample_check_unequal_read_coverage\<close>, lines 171 to 210. \<open>Some isoform\<close>
  is the isoform returned as it came, \<open>None\<close> is Python's \<open>None\<close>; \<open>iloc[0]\<close>
  and \<open>iloc[1]\<close> raise IndexError on a Series that is too short. The products of
  line 200 are 64-bit.
\<close>

definition single_sample_check_unequal_read_coverage ::
    "cell list \<Rightarrow> int \<Rightarrow> error + cell list option" where
  "single_sample_check_unequal_read_coverage isoform multiplier =
     (if length isoform = 1 then Inr (Some isoform)
      else
        (let multiplied = map (\<lambda>c. cell_times c multiplier) isoform in
         case isoform of
           junction0 # junction1 # _ \<Rightarrow>
             if cell_gt junction0 junction1 \<and> cell_gt junction0 (multiplied ! 1)
             then Inr None
             else if cell_gt junction1 junction0 \<and> cell_gt junction1 (multiplied ! 0)
             then Inr None
             else Inr (Some isoform)
         | _ \<Rightarrow> Inl IndexError))"

subsection \<open>Total-reads check\<close>

text \<open>
  What the classifier returns: a triple of isoform1, isoform2 and the case. Each of the
  first two is the Series, \<open>None\<close>, or the string \<open>'???'\<close>.
\<close>

datatype reads_out = Reads "cell list" | NoReads | Text string

type_synonym classified = "reads_out \<times> reads_out \<times> string"

text \<open>
  \<open>_single_sample_maybe_sufficient_reads\<close>, lines 135 to 168. The two sums are 64-bit
  integers and so is their sum; \<open>min_reads * n_junctions\<close> is a product of Python
  integers.
\<close>

definition single_sample_maybe_sufficient_reads ::
    "cell list \<Rightarrow> cell list \<Rightarrow> int \<Rightarrow> int \<Rightarrow> string \<Rightarrow> string \<Rightarrow> error + classified" where
  "single_sample_maybe_sufficient_reads isoform1 isoform2 n_junctions min_reads case_label letters =
     (if min_reads * n_junctions \<le> wrap64 (series_sum isoform1 + series_sum isoform2)
      then
        (case str_index letters 0 of
           Inl e \<Rightarrow> Inl e
         | Inr letter \<Rightarrow>
             Inr (Reads isoform1, Reads isoform2,
                  case_label @ '', option '' @ [letter] @
                    '': There are sufficient junction reads''))
      else
        (case str_index letters 1 of
           Inl e \<Rightarrow> Inl e
         | Inr letter \<Rightarrow>
             Inr (NoReads, NoReads,
                  case_label @ '', option '' @ [letter] @
                    '': There are insufficient junction reads'')))"

subsection \<open>Sample classifier\<close>

text \<open>The case labels of \<open>_single_isoform_maybe_reject\<close>, character for character.\<close>

definition case0 :: string where
  "case0 = ''Case 0: Unequal read coverage''"
definition case1 :: string where
  "case1 = ''Case 1: Perfect exclusion''"
definition case2 :: string where
  "case2 = ''Case 2: Perfect inclusion''"
definition case3 :: string where
  "case3 = ''Case 3: Sufficient coverage on both isoforms''"
definition case4 :: string where
  "case4 = ''Case 4: Any observed junction is zero and it's not all of one isoform''"
definition case5 :: string where
  "case5 = ''Case 5: Isoform1 totally covered and isoform2 not''"
definition case6 :: string where
  "case6 = ''Case 6: Isoform2 is totally covered and isoform1 is not''"
definition case7 :: string where
  "case7 = ''Case 7: Isoform 1 is fully covered and isoform2 is questionable''"
definition case8 :: string where
  "case8 = ''Case 8: Isoform 1 is fully covered and isoform2 is questionable''"
definition case9a :: string where
  "case9a = ''Case 9a: 3 junctions have less than minimum reads (2 on iso1 and 1 on iso2)''"
definition case9b :: string where
  "case9b = ''Case 9b: 3 junctions have less than minimum reads (2 on iso2 and one on iso1)''"
definition case9 :: string where
  "case9 = ''Case 9: Insufficient reads somehow''"
definition case10 :: string where
  "case10 = ''Case 10: isoform1 and isoform2 don't have sufficient reads''"
definition case_unknown :: string where
  "case_unknown = ''Case ???''"

text \<open>
  The ordered rules of lines 348 to 409, on two isoforms that passed the coverage
  filter. \<open>(isoform >= min_reads).all()\<close> is \<open>list_all\<close> of the comparison,
  \<open>.any()\<close> is \<open>list_ex\<close>.
\<close>

definition classify_rules ::
    "cell list \<Rightarrow> cell list \<Rightarrow> int \<Rightarrow> int \<Rightarrow> error + classified" where
  "classify_rules isoform1 isoform2 n_junctions min_reads =
     (if list_all (\<lambda>c. cell_ge c min_reads) isoform1 \<and> list_all (\<lambda>c. cell_eq c 0) isoform2
      then Inr (Reads isoform1, Reads isoform2, case1)
      else if list_all (\<lambda>c. cell_eq c 0) isoform1 \<and> list_all (\<lambda>c. cell_ge c min_reads) isoform2
      then Inr (Reads isoform1, Reads isoform2, case2)
      else if list_all (\<lambda>c. cell_ge c min_reads) isoform1 \<and>
              list_all (\<lambda>c. cell_ge c min_reads) isoform2
      then Inr (Reads isoform1, Reads isoform2, case3)
      else if list_ex (\<lambda>c. cell_eq c 0) isoform1 \<or> list_ex (\<lambda>c. cell_eq c 0) isoform2
      then Inr (NoReads, NoReads, case4)
      else if list_all (\<lambda>c. cell_ge c min_reads) isoform1 \<and>
              list_all (\<lambda>c. cell_lt c min_reads) isoform2
      then single_sample_maybe_sufficient_reads isoform1 isoform2 n_junctions min_reads
             case5 ''ab''
      else if list_all (\<lambda>c. cell_lt c min_reads) isoform1 \<and>
              list_all (\<lambda>c. cell_ge c min_reads) isoform2
      then single_sample_maybe_sufficient_reads isoform1 isoform2 n_junctions min_reads
             case6 ''ab''
      else if list_all (\<lambda>c. cell_ge c min_reads) isoform1 \<and>
              list_ex (\<lambda>c. cell_lt c min_reads) isoform2
      then single_sample_maybe_sufficient_reads isoform1 isoform2 n_junctions min_reads
             case7 ''ab''
      else if list_ex (\<lambda>c. cell_lt c min_reads) isoform1 \<and>
              list_all (\<lambda>c. cell_ge c min_reads) isoform2
      then single_sample_maybe_sufficient_reads isoform1 isoform2 n_junctions min_reads
             case8 ''ab''
      else if list_ex (\<lambda>c. cell_lt c min_reads) isoform1 \<or>
              list_ex (\<lambda>c. cell_lt c min_reads) isoform2
      then
        (if list_all (\<lambda>c. cell_lt c min_reads) isoform1 \<and>
            list_ex (\<lambda>c. cell_lt c min_reads) isoform2
         then Inr (NoReads, NoReads, case9a)
         else if list_ex (\<lambda>c. cell_lt c min_reads) isoform1 \<and>
                 list_all (\<lambda>c. cell_lt c min_reads) isoform2
         then Inr (NoReads, NoReads, case9b)
         else single_sample_maybe_sufficient_reads isoform1 isoform2 n_junctions min_reads
                case9 ''cd'')
      else if list_ex (\<lambda>c. cell_lt c min_reads) isoform1 \<or>
              list_ex (\<lambda>c. cell_lt c min_reads) isoform2
      then Inr (NoReads, NoReads, case10)
      else Inr (Text ''???'', Text ''???'', case_unknown))"

text \<open>
  \<open>_single_isoform_maybe_reject\<close>, lines 311 to 409: both isoforms go through the
  coverage filter (lines 342 and 343) before the result of either is looked at.
\<close>

definition single_isoform_maybe_reject ::
    "cell list \<Rightarrow> cell list \<Rightarrow> int \<Rightarrow> int \<Rightarrow> int \<Rightarrow> error + classified" where
  "single_isoform_maybe_reject isoform1 isoform2 n_junctions min_reads uneven_coverage_multiplier =
     (case single_sample_check_unequal_read_coverage isoform1 uneven_coverage_multiplier of
        Inl e \<Rightarrow> Inl e
      | Inr checked1 \<Rightarrow>
          (case single_sample_check_unequal_read_coverage isoform2 uneven_coverage_multiplier of
             Inl e \<Rightarrow> Inl e
           | Inr checked2 \<Rightarrow>
               (case (checked1, checked2) of
                  (Some kept1, Some kept2) \<Rightarrow> classify_rules kept1 kept2 n_junctions min_reads
                | _ \<Rightarrow> Inr (NoReads, NoReads, case0))))"

subsection \<open>Which rule fires\<close>

text \<open>
  The branch of lines 348 to 409 that is taken, and what each branch returns. The two
  together are \<open>classify_rules\<close> (lemma \<open>classify_rules_branch\<close>); the properties below
  name a rule through \<open>first_match\<close>.
\<close>

datatype rule = Rule1 | Rule2 | Rule3 | Rule4 | Rule5 | Rule6 | Rule7 | Rule8
  | Rule9a | Rule9b | Rule9c | Rule10 | NoRule

definition first_match :: "cell list \<Rightarrow> cell list \<Rightarrow> int \<Rightarrow> rule" where
  "first_match isoform1 isoform2 min_reads =
     (if list_all (\<lambda>c. cell_ge c min_reads) isoform1 \<and> list_all (\<lambda>c. cell_eq c 0) isoform2
      then Rule1
      else if list_all (\<lambda>c. cell_eq c 0) isoform1 \<and> list_all (\<lambda>c. cell_ge c min_reads) isoform2
      then Rule2
      else if list_all (\<lambda>c. cell_ge c min_reads) isoform1 \<and>
              list_all (\<lambda>c. cell_ge c min_reads) isoform2
      then Rule3
      else if list_ex (\<lambda>c. cell_eq c 0) isoform1 \<or> list_ex (\<lambda>c. cell_eq c 0) isoform2
      then Rule4
      else if list_all (\<lambda>c. cell_ge c min_reads) isoform1 \<and>
              list_all (\<lambda>c. cell_lt c min_reads) isoform2
      then Rule5
      else if list_all (\<lambda>c. cell_lt c min_reads) isoform1 \<and>
              list_all (\<lambda>c. cell_ge c min_reads) isoform2
      then Rule6
      else if list_all (\<lambda>c. cell_ge c min_reads) isoform1 \<and>
              list_ex (\<lambda>c. cell_lt c min_reads) isoform2
      then Rule7
      else if list_ex (\<lambda>c. cell_lt c min_reads) isoform1 \<and>
              list_all (\<lambda>c. cell_ge c min_reads) isoform2
      then Rule8
      else if list_ex (\<lambda>c. cell_lt c min_reads) isoform1 \<or>
              list_ex (\<lambda>c. cell_lt c min_reads) isoform2
      then
        (if list_all (\<lambda>c. cell_lt c min_reads) isoform1 \<and>
            list_ex (\<lambda>c. cell_lt c min_reads) isoform2
         then Rule9a
         else if list_ex (\<lambda>c. cell_lt c min_reads) isoform1 \<and>
                 list_all (\<lambda>c. cell_lt c min_reads) isoform2
         then Rule9b
         else Rule9c)
      else if list_ex (\<lambda>c. cell_lt c min_reads) isoform1 \<or>
              list_ex (\<lambda>c. cell_lt c min_reads) isoform2
      then Rule10
      else NoRule)"

fun branch :: "rule \<Rightarrow> cell list \<Rightarrow> cell list \<Rightarrow> int \<Rightarrow> int \<Rightarrow> error + classified" where
  "branch Rule1 i1 i2 n m = Inr (Reads i1, Reads i2, case1)"
| "branch Rule2 i1 i2 n m = Inr (Reads i1, Reads i2, case2)"
| "branch Rule3 i1 i2 n m = Inr (Reads i1, Reads i2, case3)"
| "branch Rule4 i1 i2 n m = Inr (NoReads, NoReads, case4)"
| "branch Rule5 i1 i2 n m = single_sample_maybe_sufficient_reads i1 i2 n m case5 ''ab''"
| "branch Rule6 i1 i2 n m = single_sample_maybe_sufficient_reads i1 i2 n m case6 ''ab''"
| "branch Rule7 i1 i2 n m = single_sample_maybe_sufficient_reads i1 i2 n m case7 ''ab''"
| "branch Rule8 i1 i2 n m = single_sample_maybe_sufficient_reads i1 i2 n m case8 ''ab''"
| "branch Rule9a i1 i2 n m = Inr (NoReads, NoReads, case9a)"
| "branch Rule9b i1 i2 n m = Inr (NoReads, NoReads, case9b)"
| "branch Rule9c i1 i2 n m = single_sample_maybe_sufficient_reads i1 i2 n m case9 ''cd''"
| "branch Rule10 i1 i2 n m = Inr (NoReads, NoReads, case10)"
| "branch NoRule i1 i2 n m = Inr (Text ''???'', Text ''???'', case_unknown)"

subsection \<open>One sample's row\<close>

text \<open>
  \<open>sample[isoform1_ids]\<close>: the values of a Series under the given labels, KeyError for a
  label the Series does not have.
\<close>

fun select :: "('k \<times> 'v) list \<Rightarrow> 'k list \<Rightarrow> error + 'v list" where
  "select sample [] = Inr []"
| "select sample (j # js) =
     (case map_of sample j of
        None \<Rightarrow> Inl KeyError
      | Some c \<Rightarrow> (case select sample js of Inl e \<Rightarrow> Inl e | Inr cs \<Rightarrow> Inr (c # cs)))"

text \<open>
  \<open>_single_maybe_reject\<close>, lines 260 to 307. The result is the row and its
  \<open>Case\<close> field: the row itself unless \<open>isoform1 is None\<close>, and then a row of
  missing values over the same labels.
\<close>

definition single_maybe_reject ::
    "row \<Rightarrow> junction list \<Rightarrow> junction list \<Rightarrow> int \<Rightarrow> int \<Rightarrow> int \<Rightarrow> error + row \<times> string" where
  "single_maybe_reject sample isoform1_ids isoform2_ids n_junctions min_reads
       uneven_coverage_multiplier =
     (case select sample isoform1_ids of
        Inl e \<Rightarrow> Inl e
      | Inr reads1 \<Rightarrow>
          (case select sample isoform2_ids of
             Inl e \<Rightarrow> Inl e
           | Inr reads2 \<Rightarrow>
               (case single_isoform_maybe_reject reads1 reads2 n_junctions min_reads
                       uneven_coverage_multiplier of
                  Inl e \<Rightarrow> Inl e
                | Inr (isoform1, isoform2, case_label) \<Rightarrow>
                    Inr (if isoform1 = NoReads then map (\<lambda>(j, c). (j, NaN)) sample else sample,
                         case_label))))"

subsection \<open>All samples of an event\<close>

text \<open>
  The illegal junctions of an event, in the three shapes the code handles: the missing
  value, one column name (a string), or a list of column names. In \<open>_maybe_reject\<close> a
  list makes \<open>not pd.isnull(illegal_ids)\<close> raise ValueError on two names or more, and
  \<open>reads.loc[...]\<close> raise ValueError on the two-dimensional mask that zero or one name
  gives; lines 246 to 248 run on one column name.
\<close>

datatype illegal_ids = NoIllegal | IllegalName junction | IllegalNames "junction list"

text \<open>\<open>reads[j]\<close>, one column of the table; KeyError when a row lacks the label.\<close>

fun frame_column :: "frame \<Rightarrow> junction \<Rightarrow> error + cell list" where
  "frame_column [] j = Inr []"
| "frame_column ((s, sample) # rest) j =
     (case map_of sample j of
        None \<Rightarrow> Inl KeyError
      | Some c \<Rightarrow> (case frame_column rest j of Inl e \<Rightarrow> Inl e | Inr cs \<Rightarrow> Inr (c # cs)))"

text \<open>\<open>reads.apply(f, axis=1)\<close>: \<open>f\<close> on every row, in order, up to the first exception.\<close>

fun frame_apply :: "(row \<Rightarrow> error + 'a) \<Rightarrow> frame \<Rightarrow> error + (sample_id \<times> 'a) list" where
  "frame_apply f [] = Inr []"
| "frame_apply f ((s, sample) # rest) =
     (case f sample of
        Inl e \<Rightarrow> Inl e
      | Inr y \<Rightarrow> (case frame_apply f rest of Inl e \<Rightarrow> Inl e | Inr ys \<Rightarrow> Inr ((s, y) # ys)))"

text \<open>Lines 246 to 248 of \<open>_maybe_reject\<close>: the rows left after the illegal-junction mask.\<close>

definition drop_illegal :: "frame \<Rightarrow> illegal_ids \<Rightarrow> int \<Rightarrow> error + frame" where
  "drop_illegal reads illegal min_reads =
     (case illegal of
        NoIllegal \<Rightarrow> Inr reads
      | IllegalName j \<Rightarrow>
          (case frame_column reads j of
             Inl e \<Rightarrow> Inl e
           | Inr col \<Rightarrow>
               (let samples_with_illegal_coverage = map (\<lambda>c. cell_ge c min_reads) col
                in Inr (map fst (filter (\<lambda>(r, bad). \<not> bad)
                                   (zip reads samples_with_illegal_coverage)))))
      | IllegalNames js \<Rightarrow> Inl ValueError)"

text \<open>
  The rows of the table that \<open>reads.apply\<close> builds at lines 251 to 256 of
  \<open>_maybe_reject\<close>, from the rows that the mask left: one classified row per sample.
\<close>

definition maybe_rejected_rows ::
    "frame \<Rightarrow> junction list \<Rightarrow> junction list \<Rightarrow> illegal_ids \<Rightarrow> int \<Rightarrow> int \<Rightarrow> int
       \<Rightarrow> error + (sample_id \<times> row \<times> string) list" where
  "maybe_rejected_rows reads isoform1_ids isoform2_ids illegal n_junctions min_reads
       uneven_coverage_multiplier =
     (case drop_illegal reads illegal min_reads of
        Inl e \<Rightarrow> Inl e
      | Inr kept \<Rightarrow>
          frame_apply
            (\<lambda>sample. single_maybe_reject sample isoform1_ids isoform2_ids n_junctions min_reads
               uneven_coverage_multiplier)
            kept)"

text \<open>
  \<open>zip(*labels)\<close> on a list of strings: the tuples of their first characters, of their
  second characters and so on, as many as the shortest string has; each tuple is
  written as a string.
\<close>

definition zip_star :: "string list \<Rightarrow> string list" where
  "zip_star labels =
     (case labels of
        [] \<Rightarrow> []
      | l # ls \<Rightarrow>
          map (\<lambda>i. map (\<lambda>label. label ! i) labels) [0..<fold min (map length ls) (length l)])"

text \<open>
  \<open>_maybe_reject\<close>, lines 213 to 257. \<open>reads\<close> is a table with its column labels.
  What the function returns is \<open>zip(*table)\<close> of the table that \<open>reads.apply\<close>
  built: iterating a table gives its column labels, so the result is made of the
  characters of the labels and holds no sample and no read count. The labels are those
  of \<open>reads\<close> and \<open>Case\<close>; they are those of \<open>reads\<close> alone when \<open>reads\<close> has no
  column or no row is left, where \<open>apply\<close> hands back a copy of the table.
\<close>

definition maybe_reject ::
    "junction list \<times> frame \<Rightarrow> junction list \<Rightarrow> junction list \<Rightarrow> illegal_ids \<Rightarrow> int \<Rightarrow> int \<Rightarrow> int
       \<Rightarrow> error + string list" where
  "maybe_reject reads isoform1_ids isoform2_ids illegal n_junctions min_reads
       uneven_coverage_multiplier =
     (case reads of
        (columns, rows) \<Rightarrow>
          (case drop_illegal rows illegal min_reads of
             Inl e \<Rightarrow> Inl e
           | Inr kept \<Rightarrow>
               if columns = [] \<or> kept = [] then Inr (zip_star columns)
               else
                 (case frame_apply
                         (\<lambda>sample. single_maybe_reject sample isoform1_ids isoform2_ids
                            n_junctions min_reads uneven_coverage_multiplier)
                         kept of
                    Inl e \<Rightarrow> Inl e
                  | Inr table \<Rightarrow>
                      Inr (zip_star (if ''Case'' \<in> set columns then columns
                                     else columns @ [''Case''])))))"

text \<open>The column names an \<open>illegal_ids\<close> value holds.\<close>

fun illegal_names :: "illegal_ids \<Rightarrow> junction list" where
  "illegal_names NoIllegal = []"
| "illegal_names (IllegalName j) = [j]"
| "illegal_names (IllegalNames js) = js"

subsection \<open>Event reducer\<close>

text \<open>
  The reads of one isoform: a Series indexed by junction and sample, as a list of
  entries, each a 64-bit read count. A reduced value is
  \<^item> \<open>FloatQuotient s n\<close>, the double that \<open>s / float(n)\<close> evaluates to: \<open>s\<close> and
    \<open>n\<close> are converted to doubles and divided, the result rounded to the nearest
    double (infinite or not a number when \<open>n\<close> is 0). It is given by its two operands
    and not computed here;
  \<^item> \<open>Least v\<close>, the 64-bit integer \<open>v\<close> that \<open>x.min()\<close> returns;
  \<^item> \<open>NotANumber\<close>, the minimum of no reads;
  \<^item> \<open>PyNone\<close>, Python's \<open>None\<close>.
\<close>

type_synonym junction_reads = "((junction \<times> sample_id) \<times> int) list"

datatype scaled = FloatQuotient int int | Least int | NotANumber | PyNone

datatype reduced = Unchanged junction_reads | PerSample "(sample_id \<times> scaled) list"

text \<open>\<open>reads.groupby(level=1)\<close>: the reads of one sample, in the order of the table.\<close>

definition sample_group :: "junction_reads \<Rightarrow> sample_id \<Rightarrow> int list" where
  "sample_group reads s = map snd (filter (\<lambda>((j, s'), v). s' = s) reads)"

text \<open>
  \<open>_scale\<close>, lines 15 to 20, on one sample's reads. The mean is
  \<open>x.sum()/float(n_junctions)\<close>, the sum a 64-bit integer; any other method than
  \<open>'mean'\<close> and \<open>'min'\<close> falls off the end of the function and gives \<open>None\<close>.
\<close>

definition scale :: "int list \<Rightarrow> int \<Rightarrow> string \<Rightarrow> scaled" where
  "scale x n_junctions method =
     (if method = ''mean''
      then FloatQuotient (wrap64 (sum_list x)) n_junctions
      else if method = ''min''
      then (case x of [] \<Rightarrow> NotANumber | v # vs \<Rightarrow> Least (fold min vs v))
      else PyNone)"

text \<open>
  A reading of a reduced value as a number, where it is known exactly: a quotient of two
  integers within \<open>2 ^ 53\<close> (which are doubles) that is a whole number is a double, and
  the division returns it; so \<open>30 / float(2)\<close> is \<open>15.0\<close>.
\<close>

fun exact_value :: "scaled \<Rightarrow> rat option" where
  "exact_value (FloatQuotient s n) =
     (if n \<noteq> 0 \<and> \<bar>s\<bar> \<le> 2 ^ 53 \<and> \<bar>n\<bar> \<le> 2 ^ 53 \<and> s mod n = 0
      then Some (of_int (s div n)) else None)"
| "exact_value (Least v) = Some (of_int v)"
| "exact_value NotANumber = None"
| "exact_value PyNone = None"

text \<open>
  \<open>_filter_and_scale\<close>, lines 23 to 59. The result is the table itself when it is
  empty, and otherwise one value per sample. pandas orders the samples of the result by
  their ids; here they stand in the order in which the table first names them, and the
  statements below read the result by sample id.
\<close>

definition filter_and_scale :: "junction_reads \<Rightarrow> int \<Rightarrow> string \<Rightarrow> reduced" where
  "filter_and_scale reads n_junctions method =
     (if reads = [] then Unchanged reads
      else
        (let filtered =
               (if n_junctions > 1
                then filter (\<lambda>((j, s), v). int (length (sample_group reads s)) = n_junctions) reads
                else reads)
         in PerSample (map (\<lambda>s. (s, scale (sample_group filtered s) n_junctions method))
                         (remdups (map (\<lambda>((j, s), v). s) filtered)))))"

text \<open>
  For the statements about the reducer: the junctions a sample has an entry for, and
  whether it has one for every junction of a list.
\<close>

definition junctions_of :: "junction_reads \<Rightarrow> sample_id \<Rightarrow> junction list" where
  "junctions_of reads s = map (\<lambda>((j, s'), v). j) (filter (\<lambda>((j, s'), v). s' = s) reads)"

definition has_all_junctions :: "junction_reads \<Rightarrow> junction list \<Rightarrow> sample_id \<Rightarrow> bool" where
  "has_all_junctions reads js s = list_all (\<lambda>j. map_of reads (j, s) \<noteq> None) js"

subsection \<open>One event, and the table of all events\<close>

text \<open>A PSI Series: its name and a value per sample, \<open>None\<close> for a missing value.\<close>

type_synonym psi_series = "string \<times> (sample_id \<times> rat option) list"

text \<open>\<open>junction_reads_2d[junction_cols]\<close>: every row cut down to the given columns.\<close>

definition frame_columns :: "frame \<Rightarrow> junction list \<Rightarrow> error + frame" where
  "frame_columns fr cols =
     frame_apply
       (\<lambda>sample. case select sample cols of Inl e \<Rightarrow> Inl e | Inr cs \<Rightarrow> Inr (zip cols cs))
       fr"

text \<open>
  \<open>_single_event_psi\<close>, lines 412 to 483. \<open>junction_locations\<close> is the first row of the
  event's annotation and \<open>illegal\<close> its entry under \<open>ILLEGAL_JUNCTIONS\<close>, a name
  that comes from a module that is not among the sources. Line 432 calls \<open>.tolist()\<close>
  on that entry: a string does not have it; of a missing value it is taken to give the
  float that line 436 tests for, and of a Series of names their list. After
  \<open>_maybe_reject\<close> the function returns at line 447, with \<open>None\<close>; lines 448 to 483
  do not run.
\<close>

definition single_event_psi ::
    "string \<Rightarrow> (string \<times> junction) list \<Rightarrow> illegal_ids \<Rightarrow> frame \<Rightarrow> string list \<Rightarrow> string list
       \<Rightarrow> int \<Rightarrow> string \<Rightarrow> int \<Rightarrow> error + psi_series option" where
  "single_event_psi event_id junction_locations illegal junction_reads_2d
       isoform1_junction_numbers isoform2_junction_numbers min_reads method multiplier =
     (let n_junctions1 = int (length isoform1_junction_numbers);
          n_junctions2 = int (length isoform2_junction_numbers);
          n_junctions = n_junctions1 + n_junctions2
      in case select junction_locations isoform1_junction_numbers of
           Inl e \<Rightarrow> Inl e
         | Inr isoform1_junction_ids \<Rightarrow>
        (case select junction_locations isoform2_junction_numbers of
           Inl e \<Rightarrow> Inl e
         | Inr isoform2_junction_ids \<Rightarrow>
        (case illegal of
           IllegalName name \<Rightarrow> Inl AttributeError
         | _ \<Rightarrow>
        (let junction_cols = isoform1_junction_ids @ isoform2_junction_ids @
               illegal_names illegal
         in case frame_columns junction_reads_2d junction_cols of
              Inl e \<Rightarrow> Inl e
            | Inr rows \<Rightarrow>
           (case maybe_reject (junction_cols, rows) isoform1_junction_ids
                   isoform2_junction_ids illegal n_junctions min_reads multiplier of
              Inl e \<Rightarrow> Inl e
            | Inr maybe_rejected \<Rightarrow> Inr None)))))"


text \<open>
  One group of \<open>event_annotation.groupby(level=0)\<close>: the event id, the group's first
  row and its illegal junctions.
\<close>

type_synonym event = "string \<times> (string \<times> junction) list \<times> illegal_ids"

text \<open>The loop of lines 506 to 511; \<open>psis\<close> is never appended to.\<close>

fun each_event ::
    "event list \<Rightarrow> frame \<Rightarrow> string list \<Rightarrow> string list \<Rightarrow> int \<Rightarrow> string \<Rightarrow> int \<Rightarrow> error + unit" where
  "each_event [] junction_reads_2d isoform1_junctions isoform2_junctions min_reads method
       multiplier = Inr ()"
| "each_event ((event_id, junction_locations, illegal) # rest) junction_reads_2d
       isoform1_junctions isoform2_junctions min_reads method multiplier =
     (case single_event_psi event_id junction_locations illegal junction_reads_2d
             isoform1_junctions isoform2_junctions min_reads method multiplier of
        Inl e \<Rightarrow> Inl e
      | Inr outputs \<Rightarrow>
          each_event rest junction_reads_2d isoform1_junctions isoform2_junctions min_reads
            method multiplier)"

text \<open>
  How Python binds the arguments of a call: TypeError when there are more positional
  arguments than parameters, when a keyword names a parameter that a positional
  argument has filled, or when it names no parameter.
\<close>

definition bind_call :: "string list \<Rightarrow> nat \<Rightarrow> string list \<Rightarrow> error + unit" where
  "bind_call parameters n_positional keywords =
     (if length parameters < n_positional then Inl TypeError
      else if list_ex (\<lambda>k. k \<in> set (take n_positional parameters) \<or> k \<notin> set parameters)
                keywords
      then Inl TypeError
      else Inr ())"

text \<open>The parameters of \<open>_single_event_psi\<close>, lines 412 to 415.\<close>

definition single_event_psi_parameters :: "string list" where
  "single_event_psi_parameters =
     [''event_id'', ''event_df'', ''junction_reads_2d'', ''isoform1_junction_numbers'',
      ''isoform2_junction_numbers'', ''min_reads'', ''method'', ''multiplier'', ''debug'',
      ''log'']"

text \<open>
  \<open>_maybe_parallelize_psi\<close>, lines 486 to 527. With \<open>n_jobs\<close> other than 1,
  \<open>joblib.Parallel\<close> refuses \<open>n_jobs = 0\<close> with ValueError; otherwise every event is
  called as line 520 writes it, with six positional arguments and the keywords
  \<open>min_reads\<close>, \<open>multiplier\<close> and \<open>method\<close>, and after the calls \<open>return psis\<close>
  finds \<open>psis\<close> unbound, since only the branch of \<open>n_jobs = 1\<close> assigns it.
\<close>

definition maybe_parallelize_psi ::
    "event list \<Rightarrow> frame \<Rightarrow> string list \<Rightarrow> string list \<Rightarrow> string \<Rightarrow> int \<Rightarrow> string \<Rightarrow> int \<Rightarrow> int
       \<Rightarrow> error + psi_series option list" where
  "maybe_parallelize_psi event_annotation junction_reads_2d isoform1_junctions
       isoform2_junctions reads_col min_reads method multiplier n_jobs =
     (if n_jobs = 1
      then
        (case each_event event_annotation junction_reads_2d isoform1_junctions
                isoform2_junctions min_reads method multiplier of
           Inl e \<Rightarrow> Inl e
         | Inr u \<Rightarrow> Inr [])
      else if n_jobs = 0 then Inl ValueError
      else
        (case (if event_annotation = [] then Inr ()
               else bind_call single_event_psi_parameters 6
                      [''min_reads'', ''multiplier'', ''method'']) of
           Inl e \<Rightarrow> Inl e
         | Inr u \<Rightarrow> Inl UnboundLocalError))"

text \<open>The table of PSI values: its row index and its columns, one Series per event.\<close>

record psi_table =
  table_index :: "sample_id list"
  table_columns :: "psi_series list"

text \<open>
  \<open>calculate_psi\<close>, lines 530 to 588. \<open>pd.concat\<close> of nothing raises ValueError, which
  line 584 catches; line 585 then asks the index of \<open>junction_reads_2d\<close> for its
  \<open>levels\<close>, which the index of a table of samples by junctions does not have. With
  Series to put side by side, line 587 asks the same index for a second name.
\<close>

definition calculate_psi ::
    "event list \<Rightarrow> frame \<Rightarrow> string list \<Rightarrow> string list \<Rightarrow> string \<Rightarrow> int \<Rightarrow> string \<Rightarrow> int \<Rightarrow> int
       \<Rightarrow> error + psi_table" where
  "calculate_psi event_annotation junction_reads_2d isoform1_junctions isoform2_junctions
       reads_col min_reads method multiplier n_jobs =
     (case maybe_parallelize_psi event_annotation junction_reads_2d isoform1_junctions
             isoform2_junctions reads_col min_reads method multiplier n_jobs of
        Inl e \<Rightarrow> Inl e
      | Inr psis \<Rightarrow>
          (case List.map_filter id psis of
             [] \<Rightarrow> Inl AttributeError
           | p # ps \<Rightarrow> Inl IndexError))"

section \<open>Properties\<close>

subsection \<open>64-bit arithmetic\<close>

lemma wrap64_id: "int64 x \<Longrightarrow> wrap64 x = x"
  by (simp add: wrap64_def int64_def)

lemma wrap64_zero [simp]: "wrap64 0 = 0"
  by (simp add: wrap64_def)

lemma wrap64_add_right: "wrap64 (a + wrap64 b) = wrap64 (a + b)"
proof -
  have "(a + ((b + 2 ^ 63) mod 2 ^ 64 - 2 ^ 63) + 2 ^ 63) mod 2 ^ 64
      = (a + (b + 2 ^ 63) mod 2 ^ 64) mod (2 ^ 64 :: int)"
    by (simp add: algebra_simps)
  also have "\<dots> = (a + (b + 2 ^ 63)) mod 2 ^ 64"
    by (rule mod_add_right_eq)
  finally show ?thesis
    by (simp add: wrap64_def algebra_simps)
qed

lemma wrap64_add_left: "wrap64 (wrap64 a + b) = wrap64 (a + b)"
  using wrap64_add_right [of b a] by (simp add: add.commute)

subsection \<open>Comparisons on Series of integer counts\<close>

lemma all_ge_counts [simp]:
  "list_all (\<lambda>c. cell_ge c m) (map Count xs) = list_all (\<lambda>v. m \<le> v) xs"
  by (induction xs) simp_all

lemma all_lt_counts [simp]:
  "list_all (\<lambda>c. cell_lt c m) (map Count xs) = list_all (\<lambda>v. v < m) xs"
  by (induction xs) simp_all

lemma all_eq_counts [simp]:
  "list_all (\<lambda>c. cell_eq c m) (map Count xs) = list_all (\<lambda>v. v = m) xs"
  by (induction xs) simp_all

lemma ex_lt_counts [simp]:
  "list_ex (\<lambda>c. cell_lt c m) (map Count xs) = list_ex (\<lambda>v. v < m) xs"
  by (induction xs) simp_all

lemma ex_eq_counts [simp]:
  "list_ex (\<lambda>c. cell_eq c m) (map Count xs) = list_ex (\<lambda>v. v = m) xs"
  by (induction xs) simp_all

lemma sum_counts [simp]: "series_sum (map Count xs) = wrap64 (sum_list xs)"
  by (induction xs) (simp_all add: wrap64_add_right)

lemma sum_of_sums:
  "int64 (sum_list xs + sum_list ys) \<Longrightarrow>
   wrap64 (series_sum (map Count xs) + series_sum (map Count ys)) = sum_list xs + sum_list ys"
  by (simp add: wrap64_add_left wrap64_add_right wrap64_id)


subsection \<open>Coverage filter\<close>

lemma check_single [simp]:
  "single_sample_check_unequal_read_coverage [c] k = Inr (Some [c])"
  by (simp add: single_sample_check_unequal_read_coverage_def)

lemma check_two_or_more:
  "single_sample_check_unequal_read_coverage (Count a # Count b # rest) k =
     (if (b < a \<and> wrap64 (b * k) < a) \<or> (a < b \<and> wrap64 (a * k) < b) then Inr None
      else Inr (Some (Count a # Count b # rest)))"
  by (simp add: single_sample_check_unequal_read_coverage_def)

text \<open>
  The wrap-around is that of line 200: ten times \<open>2 ^ 60\<close> is negative in 64 bits, so
  \<open>[2 ^ 62, 2 ^ 60]\<close> is rejected with the multiplier 10, although \<open>2 ^ 62\<close> is less
  than ten times \<open>2 ^ 60\<close>.
\<close>

lemma coverage_filter_wraps:
  "single_sample_check_unequal_read_coverage [Count (2 ^ 62), Count (2 ^ 60)] 10 = Inr None"
  by (simp add: check_two_or_more wrap64_def)

text \<open>
  C1. The coverage filter returns an isoform with exactly one junction unchanged. On an
  isoform of two or more junctions whose first two read counts are \<open>a\<close> and \<open>b\<close> it
  returns no reads exactly when \<open>a > b\<close> and \<open>a > m * b\<close>, or \<open>b > a\<close> and
  \<open>b > m * a\<close>, for the multiplier \<open>m\<close>; otherwise it returns the reads unchanged.
  The two products fit in 64 bits.
\<close>

theorem coverage_filter_contract:
  "single_sample_check_unequal_read_coverage [c] m = Inr (Some [c]) \<and>
   (int64 (m * a) \<and> int64 (m * b) \<longrightarrow>
    single_sample_check_unequal_read_coverage (Count a # Count b # rest) m =
      (if (a > b \<and> a > m * b) \<or> (b > a \<and> b > m * a) then Inr None
       else Inr (Some (Count a # Count b # rest))))"
  by (simp add: check_two_or_more mult.commute wrap64_id)

theorem coverage_filter_contract_witness:
  "single_sample_check_unequal_read_coverage [Count 7] 10 = Inr (Some [Count 7]) \<and>
   single_sample_check_unequal_read_coverage [Count 500, Count 40] 10 = Inr None \<and>
   single_sample_check_unequal_read_coverage [Count 40, Count 500, Count 3] 10 = Inr None \<and>
   single_sample_check_unequal_read_coverage [Count 40, Count 400] 10 =
     Inr (Some [Count 40, Count 400])"
  using coverage_filter_contract [of "Count 7" 10 500 40 "[]"]
    coverage_filter_contract [of "Count 7" 10 40 500 "[Count 3]"]
    coverage_filter_contract [of "Count 7" 10 40 400 "[]"]
  by (simp add: int64_def)


subsection \<open>Sample classifier\<close>

lemma classify_rules_branch:
  "classify_rules i1 i2 n m = branch (first_match i1 i2 m) i1 i2 n m"
  unfolding classify_rules_def first_match_def by simp

lemma sufficient_two_letters:
  "single_sample_maybe_sufficient_reads i1 i2 n m c [p, q] =
     (if m * n \<le> wrap64 (series_sum i1 + series_sum i2)
      then Inr (Reads i1, Reads i2, c @ '', option '' @ [p] @ '': There are sufficient junction reads'')
      else Inr (NoReads, NoReads, c @ '', option '' @ [q] @ '': There are insufficient junction reads''))"
  by (simp add: single_sample_maybe_sufficient_reads_def str_index_def)

lemma first_match_not_rule10: "first_match i1 i2 m \<noteq> Rule10"
  by (simp add: first_match_def)



lemma check_returns_input:
  "single_sample_check_unequal_read_coverage i k = Inr (Some x) \<Longrightarrow> x = i"
  by (auto simp: single_sample_check_unequal_read_coverage_def Let_def
      split: if_splits list.splits)

lemma check_nonempty:
  "i \<noteq> [] \<Longrightarrow> \<exists>r. single_sample_check_unequal_read_coverage i k = Inr r"
  by (auto simp: single_sample_check_unequal_read_coverage_def Let_def
      split: if_splits list.splits)

lemma classifier_passed:
  "single_sample_check_unequal_read_coverage i1 k = Inr (Some i1) \<Longrightarrow>
   single_sample_check_unequal_read_coverage i2 k = Inr (Some i2) \<Longrightarrow>
   single_isoform_maybe_reject i1 i2 n m k = branch (first_match i1 i2 m) i1 i2 n m"
  by (simp add: single_isoform_maybe_reject_def classify_rules_branch)

lemma classifier_cases:
  "single_isoform_maybe_reject i1 i2 n m k = Inl IndexError \<or>
   single_isoform_maybe_reject i1 i2 n m k = Inr (NoReads, NoReads, case0) \<or>
   single_isoform_maybe_reject i1 i2 n m k = branch (first_match i1 i2 m) i1 i2 n m"
proof (cases "single_sample_check_unequal_read_coverage i1 k")
  case (Inl e)
  then show ?thesis
    by (cases e) (auto simp: single_sample_check_unequal_read_coverage_def Let_def
        single_isoform_maybe_reject_def split: if_splits list.splits)
next
  case r1: (Inr c1)
  show ?thesis
  proof (cases "single_sample_check_unequal_read_coverage i2 k")
    case (Inl e)
    then show ?thesis using r1
      by (cases e) (auto simp: single_sample_check_unequal_read_coverage_def Let_def
        single_isoform_maybe_reject_def split: if_splits list.splits)
  next
    case r2: (Inr c2)
    show ?thesis
    proof (cases c1)
      case None
      then show ?thesis using r1 r2 by (simp add: single_isoform_maybe_reject_def)
    next
      case s1: (Some k1)
      show ?thesis
      proof (cases c2)
        case None
        then show ?thesis using r1 r2 s1 by (simp add: single_isoform_maybe_reject_def)
      next
        case s2: (Some k2)
        have "k1 = i1" "k2 = i2"
          using r1 r2 s1 s2 check_returns_input by blast+
        then show ?thesis using r1 r2 s1 s2 classifier_passed by simp
      qed
    qed
  qed
qed

lemmas case_defs = case0_def case1_def case2_def case3_def case4_def case5_def case6_def
  case7_def case8_def case9_def case9a_def case9b_def case10_def case_unknown_def

lemma branch_not_case10:
  "r \<noteq> Rule10 \<Longrightarrow> branch r i1 i2 n m \<noteq> Inr (r1, r2, case10)"
  by (cases r) (simp_all add: sufficient_two_letters case_defs)


text \<open>
  C2, as amended. For integer read vectors that pass the coverage filter and reach a
  deferring rule, and whose reads add up within 64 bits, the classifier returns the
  original reads exactly when
  \<open>sum(isoform1) + sum(isoform2) >= min_reads * n_junctions\<close>, and no reads otherwise.
  The label is the rule's label followed by \<open>, option a: There are sufficient junction
  reads\<close> or \<open>, option b: There are insufficient junction reads\<close> under rules 5 to 8, and
  by the same two sentences with the letters \<open>c\<close> and \<open>d\<close> under rule 9c.
\<close>

theorem total_reads_check:
  assumes "single_sample_check_unequal_read_coverage (map Count xs) k = Inr (Some (map Count xs))"
    and "single_sample_check_unequal_read_coverage (map Count ys) k = Inr (Some (map Count ys))"
    and "first_match (map Count xs) (map Count ys) m = r"
    and "(r, c, p, q) \<in> {(Rule5, case5, CHR ''a'', CHR ''b''), (Rule6, case6, CHR ''a'', CHR ''b''),
           (Rule7, case7, CHR ''a'', CHR ''b''), (Rule8, case8, CHR ''a'', CHR ''b''),
           (Rule9c, case9, CHR ''c'', CHR ''d'')}"
    and "int64 (sum_list xs + sum_list ys)"
  shows "single_isoform_maybe_reject (map Count xs) (map Count ys) n m k =
     (if m * n \<le> sum_list xs + sum_list ys
      then Inr (Reads (map Count xs), Reads (map Count ys),
                c @ '', option '' @ [p] @ '': There are sufficient junction reads'')
      else Inr (NoReads, NoReads,
                c @ '', option '' @ [q] @ '': There are insufficient junction reads''))"
  using assms(3,4) classifier_passed [OF assms(1,2), of n m] sum_of_sums [OF assms(5)]
  by (auto simp: sufficient_two_letters simp del: sum_counts)

text \<open>
  The wrap-around is that of line 159: the reads \<open>[2 ^ 62, 2 ^ 62]\<close> and \<open>[5]\<close>
  reach rule 5, and their 64-bit sum is negative, so the sample is rejected.
\<close>

lemma total_reads_wraps:
  "first_match [Count (2 ^ 62), Count (2 ^ 62)] [Count 5] 10 = Rule5 \<and>
   single_isoform_maybe_reject [Count (2 ^ 62), Count (2 ^ 62)] [Count 5] 3 10 10 =
     Inr (NoReads, NoReads, case5 @ '', option b: There are insufficient junction reads'')"
  by (simp add: first_match_def single_isoform_maybe_reject_def classify_rules_def
      check_two_or_more sufficient_two_letters wrap64_def)

theorem total_reads_check_witness:
  "single_isoform_maybe_reject [Count 12] [Count 9] 2 10 10 =
     Inr (Reads [Count 12], Reads [Count 9],
          ''Case 5: Isoform1 totally covered and isoform2 not, option a: There are sufficient junction reads'') \<and>
   single_isoform_maybe_reject [Count 12] [Count 3] 2 10 10 =
     Inr (NoReads, NoReads,
          ''Case 5: Isoform1 totally covered and isoform2 not, option b: There are insufficient junction reads'') \<and>
   single_isoform_maybe_reject [Count 5, Count 15] [Count 5, Count 15] 4 10 10 =
     Inr (Reads [Count 5, Count 15], Reads [Count 5, Count 15],
          ''Case 9: Insufficient reads somehow, option c: There are sufficient junction reads'')"
  using total_reads_check [where xs = "[12]" and ys = "[9]" and k = 10 and m = 10 and n = 2
      and r = Rule5 and c = case5 and p = "CHR ''a''" and q = "CHR ''b''"]
    total_reads_check [where xs = "[12]" and ys = "[3]" and k = 10 and m = 10 and n = 2
      and r = Rule5 and c = case5 and p = "CHR ''a''" and q = "CHR ''b''"]
    total_reads_check [where xs = "[5, 15]" and ys = "[5, 15]" and k = 10 and m = 10 and n = 4
      and r = Rule9c and c = case9 and p = "CHR ''c''" and q = "CHR ''d''"]
  by (simp add: first_match_def check_two_or_more case5_def case9_def int64_def wrap64_def)

text \<open>
  The claim as written fails under rule 9c: the reads \<open>[5, 15]\<close> and \<open>[5, 15]\<close> with
  \<open>min_reads = 10\<close> and four junctions reach rule 9c with \<open>40 >= 40\<close>, and the label
  of the accepted sample carries \<open>option c\<close>, not \<open>option a\<close>.
\<close>

theorem total_reads_letters_counterexample:
  "first_match [Count 5, Count 15] [Count 5, Count 15] 10 = Rule9c \<and>
   (10::int) * 4 \<le> wrap64 (series_sum [Count 5, Count 15] + series_sum [Count 5, Count 15]) \<and>
   single_isoform_maybe_reject [Count 5, Count 15] [Count 5, Count 15] 4 10 10 =
     Inr (Reads [Count 5, Count 15], Reads [Count 5, Count 15],
          case9 @ '', option c: There are sufficient junction reads'') \<and>
   single_isoform_maybe_reject [Count 5, Count 15] [Count 5, Count 15] 4 10 10 \<noteq>
     Inr (Reads [Count 5, Count 15], Reads [Count 5, Count 15],
          case9 @ '', option a: There are sufficient junction reads'')"
  by (simp add: first_match_def single_isoform_maybe_reject_def classify_rules_def
      check_two_or_more sufficient_two_letters wrap64_def)

text \<open>
  C5. The reads \<open>[5, 15]\<close> and \<open>[12]\<close> with \<open>min_reads = 10\<close> match rule 8 and go to
  the total-reads check; the label they get is rule 7's sentence under the number 8.
\<close>

theorem rule8_label:
  "first_match [Count 5, Count 15] [Count 12] 10 = Rule8 \<and>
   single_isoform_maybe_reject [Count 5, Count 15] [Count 12] 3 10 10 =
     Inr (Reads [Count 5, Count 15], Reads [Count 12],
          ''Case 8: Isoform 1 is fully covered and isoform2 is questionable, option a: There are sufficient junction reads'')"
  by (simp add: first_match_def single_isoform_maybe_reject_def classify_rules_def
      check_two_or_more sufficient_two_letters case8_def wrap64_def)

text \<open>
  C8. Rule 10 never fires, and the classifier never returns its outcome, the label
  \<open>Case 10: isoform1 and isoform2 don't have sufficient reads\<close>: rule 9 tests the same
  condition first.
\<close>

theorem rule10_dead:
  "first_match i1 i2 m \<noteq> Rule10 \<and>
   single_isoform_maybe_reject i1 i2 n m k \<noteq> Inr (r1, r2, case10)"
  using classifier_cases [of i1 i2 n m k] first_match_not_rule10 [of i1 i2 m]
    branch_not_case10 [of "first_match i1 i2 m" i1 i2 n m r1 r2]
  by (auto simp: case_defs)

theorem rule10_dead_witness:
  "first_match [Count 5, Count 15] [NaN] 10 \<noteq> Rule10 \<and>
   single_isoform_maybe_reject [Count 5, Count 15] [NaN] 3 10 10 \<noteq>
     Inr (NoReads, NoReads, case10)"
  using rule10_dead [of "[Count 5, Count 15]" "[NaN]" 10 3 10 NoReads NoReads]
  by simp

text \<open>
  C10. A two-junction isoform with zero reads on one junction and positive reads on the
  other is rejected by the coverage filter for every multiplier, so the classifier
  returns \<open>Case 0: Unequal read coverage\<close> for the sample, whichever isoform it is, and
  not rule 4's outcome. The other isoform has at least one junction.
\<close>

theorem zero_junction_unequal:
  assumes "(a = 0 \<and> 0 < b) \<or> (0 < a \<and> b = 0)" and "other \<noteq> []"
  shows "single_sample_check_unequal_read_coverage [Count a, Count b] k = Inr None \<and>
    single_isoform_maybe_reject [Count a, Count b] other n m k = Inr (NoReads, NoReads, case0) \<and>
    single_isoform_maybe_reject other [Count a, Count b] n m k = Inr (NoReads, NoReads, case0) \<and>
    single_isoform_maybe_reject [Count a, Count b] other n m k \<noteq> Inr (NoReads, NoReads, case4) \<and>
    single_isoform_maybe_reject other [Count a, Count b] n m k \<noteq> Inr (NoReads, NoReads, case4)"
proof -
  have rej: "single_sample_check_unequal_read_coverage [Count a, Count b] k = Inr None"
    using assms(1) by (auto simp: check_two_or_more)
  obtain r where r: "single_sample_check_unequal_read_coverage other k = Inr r"
    using check_nonempty [OF assms(2)] by blast
  have 1: "single_isoform_maybe_reject [Count a, Count b] other n m k = Inr (NoReads, NoReads, case0)"
    using rej r by (simp add: single_isoform_maybe_reject_def)
  have 2: "single_isoform_maybe_reject other [Count a, Count b] n m k = Inr (NoReads, NoReads, case0)"
    using rej r by (cases r) (simp_all add: single_isoform_maybe_reject_def)
  show ?thesis using rej 1 2 by (simp add: case0_def case4_def)
qed

theorem zero_junction_unequal_witness:
  "single_sample_check_unequal_read_coverage [Count 0, Count 3] 10 = Inr None \<and>
   single_isoform_maybe_reject [Count 0, Count 3] [Count 12] 3 10 10 =
     Inr (NoReads, NoReads, case0) \<and>
   single_isoform_maybe_reject [Count 12] [Count 0, Count 3] 3 10 10 =
     Inr (NoReads, NoReads, case0)"
  using zero_junction_unequal [of 0 3 "[Count 12]" 10 3 10]
  by simp

subsection \<open>Illegal junctions\<close>


lemma frame_column_length:
  "frame_column fr j = Inr col \<Longrightarrow> length col = length fr"
  by (induction fr j arbitrary: col rule: frame_column.induct)
     (auto split: sum.splits option.splits)




subsection \<open>Event reducer\<close>

lemma length_group: "length (sample_group reads s) = length (junctions_of reads s)"
  by (simp add: sample_group_def junctions_of_def)

lemma distinct_junctions_of:
  "distinct (map fst reads) \<Longrightarrow> distinct (junctions_of reads s)"
proof (induction reads)
  case Nil
  then show ?case by (simp add: junctions_of_def)
next
  case (Cons e reads)
  obtain j s' v where e: "e = ((j, s'), v)" by (metis surj_pair)
  have "j \<notin> set (junctions_of reads s)" if "s' = s"
  proof
    assume "j \<in> set (junctions_of reads s)"
    then have "(j, s) \<in> set (map fst reads)"
      by (force simp: junctions_of_def)
    with Cons.prems e that show False by simp
  qed
  with Cons e show ?case by (auto simp: junctions_of_def)
qed

lemma set_junctions_of:
  "distinct (map fst reads) \<Longrightarrow>
   set (junctions_of reads s) = {j. map_of reads (j, s) \<noteq> None}"
  by (force simp: junctions_of_def map_of_eq_None_iff)

lemma group_values:
  "distinct (map fst reads) \<Longrightarrow>
   sample_group reads s = map (\<lambda>j. the (map_of reads (j, s))) (junctions_of reads s)"
proof (induction reads)
  case Nil
  then show ?case by (simp add: sample_group_def junctions_of_def)
next
  case (Cons e reads)
  obtain j s' v where e: "e = ((j, s'), v)" by (metis surj_pair)
  have ih: "sample_group reads s = map (\<lambda>j. the (map_of reads (j, s))) (junctions_of reads s)"
    using Cons by simp
  have other: "map (\<lambda>j'. the (map_of (e # reads) (j', s))) (junctions_of reads s)
      = map (\<lambda>j'. the (map_of reads (j', s))) (junctions_of reads s)"
  proof (rule map_cong [OF refl])
    fix j' assume "j' \<in> set (junctions_of reads s)"
    then have "(j', s) \<in> set (map fst reads)" by (force simp: junctions_of_def)
    with Cons.prems e have "(j', s) \<noteq> (j, s')" by auto
    then show "the (map_of (e # reads) (j', s)) = the (map_of reads (j', s))"
      using e by auto
  qed
  show ?case
  proof (cases "s' = s")
    case True
    have "sample_group (e # reads) s = v # sample_group reads s"
      using e True by (simp add: sample_group_def)
    moreover have "junctions_of (e # reads) s = j # junctions_of reads s"
      using e True by (simp add: junctions_of_def)
    ultimately show ?thesis using ih other e True by simp
  next
    case False
    have "sample_group (e # reads) s = sample_group reads s"
      using e False by (simp add: sample_group_def)
    moreover have "junctions_of (e # reads) s = junctions_of reads s"
      using e False by (simp add: junctions_of_def)
    ultimately show ?thesis using ih other by simp
  qed
qed

lemma fold_min_Min: "fold min vs (v::int) = Min (set (v # vs))"
  by (rule Min.set_eq_fold [symmetric])

lemma complete_iff_length:
  assumes "distinct (map fst reads)"
    and "\<forall>((j, s'), v) \<in> set reads. j \<in> set js"
    and "distinct js"
  shows "(length (sample_group reads s) = length js) = (\<forall>j \<in> set js. map_of reads (j, s) \<noteq> None)"
proof -
  let ?J = "junctions_of reads s"
  have d: "distinct ?J" using assms(1) by (rule distinct_junctions_of)
  have sub: "set ?J \<subseteq> set js"
    using assms(2) by (force simp: junctions_of_def)
  have set_eq: "set ?J = {j. map_of reads (j, s) \<noteq> None}"
    using assms(1) by (rule set_junctions_of)
  have "(length ?J = length js) = (set ?J = set js)"
  proof
    assume "length ?J = length js"
    then have "card (set ?J) = card (set js)"
      using d assms(3) by (simp add: distinct_card)
    with sub show "set ?J = set js"
      by (simp add: card_subset_eq)
  next
    assume "set ?J = set js"
    then show "length ?J = length js"
      using d assms(3) by (metis distinct_card)
  qed
  also have "\<dots> = (\<forall>j \<in> set js. map_of reads (j, s) \<noteq> None)"
    using sub set_eq by auto
  finally show ?thesis by (simp add: length_group)
qed

lemma complete_group_sum:
  assumes "distinct (map fst reads)"
    and "\<forall>((j, s'), v) \<in> set reads. j \<in> set js"
    and "distinct js"
    and "\<forall>j \<in> set js. map_of reads (j, s) \<noteq> None"
  shows "sum_list (sample_group reads s) = (\<Sum>j\<leftarrow>js. the (map_of reads (j, s)))"
    and "set (sample_group reads s) = (\<lambda>j. the (map_of reads (j, s))) ` set js"
proof -
  let ?J = "junctions_of reads s"
  have d: "distinct ?J" using assms(1) by (rule distinct_junctions_of)
  have "set ?J \<subseteq> set js"
    using assms(2) by (force simp: junctions_of_def)
  moreover have "set ?J = {j. map_of reads (j, s) \<noteq> None}"
    using assms(1) by (rule set_junctions_of)
  ultimately have eq: "set ?J = set js" using assms(4) by auto
  have g: "sample_group reads s = map (\<lambda>j. the (map_of reads (j, s))) ?J"
    using assms(1) by (rule group_values)
  show "sum_list (sample_group reads s) = (\<Sum>j\<leftarrow>js. the (map_of reads (j, s)))"
    using d assms(3) eq by (simp add: g sum_list_distinct_conv_sum_set)
  show "set (sample_group reads s) = (\<lambda>j. the (map_of reads (j, s))) ` set js"
    using eq by (simp add: g)
qed

lemma map_of_tabulate:
  "map_of (map (\<lambda>k. (k, f k)) ks) k = (if k \<in> set ks then Some (f k) else None)"
  by (induction ks) auto

lemma filtered_complete:
  assumes "distinct (map fst reads)"
    and "\<forall>((j, s'), v) \<in> set reads. j \<in> set js"
    and "distinct js"
    and "int (length js) = n"
  shows "(if n > 1
          then filter (\<lambda>((j, s), v). int (length (sample_group reads s)) = n) reads
          else reads)
       = filter (\<lambda>((j, s), v). has_all_junctions reads js s) reads"
proof (cases "n > 1")
  case True
  have "(int (length (sample_group reads s)) = n) = has_all_junctions reads js s" for s
  proof -
    have "(int (length (sample_group reads s)) = n)
        = (length (sample_group reads s) = length js)"
      using assms(4) by auto
    then show ?thesis
      using complete_iff_length [OF assms(1,2,3), of s]
      by (simp add: has_all_junctions_def list_all_iff)
  qed
  then show ?thesis using True by simp
next
  case False
  have "has_all_junctions reads js s" if "((j, s), v) \<in> set reads" for j s v
  proof -
    have "j \<in> set js" using assms(2) that by auto
    moreover have "length js \<le> 1" using False assms(4) by simp
    ultimately have "js = [j]"
      by (cases js) auto
    moreover have "(j, s) \<in> fst ` set reads"
      using that by force
    then have "map_of reads (j, s) \<noteq> None"
      by (simp add: map_of_eq_None_iff)
    ultimately show ?thesis by (simp add: has_all_junctions_def)
  qed
  then have "filter (\<lambda>((j, s), v). has_all_junctions reads js s) reads = reads"
    by (auto simp: filter_id_conv)
  then show ?thesis using False by simp
qed

lemma group_filtered:
  "sample_group (filter (\<lambda>((j, s), v). P s) reads) s = (if P s then sample_group reads s else [])"
  by (induction reads) (auto simp: sample_group_def)

lemma samples_filtered:
  assumes "js \<noteq> []"
  shows "(s \<in> set (map (\<lambda>((j, s), v). s) (filter (\<lambda>((j, s), v). has_all_junctions reads js s) reads)))
     = has_all_junctions reads js s"
proof
  assume "s \<in> set (map (\<lambda>((j, s), v). s) (filter (\<lambda>((j, s), v). has_all_junctions reads js s) reads))"
  then show "has_all_junctions reads js s" by auto
next
  assume c: "has_all_junctions reads js s"
  obtain j where "j \<in> set js" using assms by (cases js) auto
  with c have "map_of reads (j, s) \<noteq> None"
    by (simp add: has_all_junctions_def list_all_iff)
  then obtain v where "((j, s), v) \<in> set reads"
    by (auto dest: map_of_SomeD)
  with c show "s \<in> set (map (\<lambda>((j, s), v). s) (filter (\<lambda>((j, s), v). has_all_junctions reads js s) reads))"
    by force
qed

lemma filter_and_scale_lookup:
  assumes "distinct (map fst reads)"
    and "\<forall>((j, s'), v) \<in> set reads. j \<in> set js"
    and "distinct js"
    and "int (length js) = n"
    and "reads \<noteq> []"
  shows "\<exists>r. filter_and_scale reads n method = PerSample r \<and>
     (\<forall>s. map_of r s =
        (if has_all_junctions reads js s then Some (scale (sample_group reads s) n method) else None))"
proof -
  have js: "js \<noteq> []"
    using assms(2,5) by (cases reads) auto
  let ?filtered = "filter (\<lambda>((j, s), v). has_all_junctions reads js s) reads"
  let ?r = "map (\<lambda>s. (s, scale (sample_group ?filtered s) n method))
              (remdups (map (\<lambda>((j, s), v). s) ?filtered))"
  have run: "filter_and_scale reads n method = PerSample ?r"
    using assms(5) filtered_complete [OF assms(1-4)]
    by (simp add: filter_and_scale_def Let_def)
  have "map_of ?r s =
        (if has_all_junctions reads js s then Some (scale (sample_group reads s) n method) else None)" for s
    using samples_filtered [OF js, of s reads]
    by (simp add: map_of_tabulate group_filtered)
  with run show ?thesis by blast
qed

text \<open>
  C6. An empty table is returned unchanged. For a non-empty table of one isoform, whose
  entries are one per junction and sample and lie on the isoform's \<open>n\<close> junctions
  \<open>js\<close>: a sample that lacks an entry for some junction is not in the result; every
  other sample is, with the least of its junction reads under \<open>'min'\<close> and, where its
  junction reads add up within 64 bits, with the quotient of their sum and \<open>n\<close> under
  \<open>'mean'\<close>, as the division of doubles gives it.
\<close>

theorem event_reducer:
  assumes "distinct (map fst reads)"
    and "\<forall>((j, s'), v) \<in> set reads. j \<in> set js"
    and "distinct js"
    and "int (length js) = n"
    and "reads \<noteq> []"
  shows "filter_and_scale [] n method = Unchanged [] \<and>
    (\<exists>means mins.
       filter_and_scale reads n ''mean'' = PerSample means \<and>
       filter_and_scale reads n ''min'' = PerSample mins \<and>
       (\<forall>s. (\<exists>j \<in> set js. map_of reads (j, s) = None) \<longrightarrow>
            map_of means s = None \<and> map_of mins s = None) \<and>
       (\<forall>s. (\<forall>j \<in> set js. map_of reads (j, s) \<noteq> None) \<longrightarrow>
            (int64 (\<Sum>j\<leftarrow>js. the (map_of reads (j, s))) \<longrightarrow>
             map_of means s =
               Some (FloatQuotient (\<Sum>j\<leftarrow>js. the (map_of reads (j, s))) n)) \<and>
            map_of mins s =
              Some (Least (Min ((\<lambda>j. the (map_of reads (j, s))) ` set js)))))"
proof -
  have js: "js \<noteq> []"
    using assms(2,5) by (cases reads) auto
  obtain means where means: "filter_and_scale reads n ''mean'' = PerSample means"
    and means_at: "\<And>s. map_of means s =
        (if has_all_junctions reads js s then Some (scale (sample_group reads s) n ''mean'') else None)"
    using filter_and_scale_lookup [OF assms, of "''mean''"] by blast
  obtain mins where mins: "filter_and_scale reads n ''min'' = PerSample mins"
    and mins_at: "\<And>s. map_of mins s =
        (if has_all_junctions reads js s then Some (scale (sample_group reads s) n ''min'') else None)"
    using filter_and_scale_lookup [OF assms, of "''min''"] by blast
  have dropped: "map_of means s = None \<and> map_of mins s = None"
    if "\<exists>j \<in> set js. map_of reads (j, s) = None" for s
    using that by (auto simp: means_at mins_at has_all_junctions_def list_all_iff)
  have kept: "(int64 (\<Sum>j\<leftarrow>js. the (map_of reads (j, s))) \<longrightarrow>
             map_of means s =
               Some (FloatQuotient (\<Sum>j\<leftarrow>js. the (map_of reads (j, s))) n)) \<and>
            map_of mins s =
              Some (Least (Min ((\<lambda>j. the (map_of reads (j, s))) ` set js)))"
    if c: "\<forall>j \<in> set js. map_of reads (j, s) \<noteq> None" for s
  proof -
    have cs: "has_all_junctions reads js s" using c by (simp add: has_all_junctions_def list_all_iff)
    have sum: "sum_list (sample_group reads s) = (\<Sum>j\<leftarrow>js. the (map_of reads (j, s)))"
      and vals: "set (sample_group reads s) = (\<lambda>j. the (map_of reads (j, s))) ` set js"
      using complete_group_sum [OF assms(1,2,3) c] by blast+
    have ne: "sample_group reads s \<noteq> []" using vals js by auto
    have "scale (sample_group reads s) n ''mean'' =
        FloatQuotient (\<Sum>j\<leftarrow>js. the (map_of reads (j, s))) n"
      if "int64 (\<Sum>j\<leftarrow>js. the (map_of reads (j, s)))"
      using that by (simp add: scale_def sum wrap64_id)
    moreover have "scale (sample_group reads s) n ''min'' =
        Least (Min ((\<lambda>j. the (map_of reads (j, s))) ` set js))"
    proof (cases "sample_group reads s")
      case Nil
      with ne show ?thesis by simp
    next
      case (Cons v vs)
      then show ?thesis
        using vals fold_min_Min [of vs v] by (simp add: scale_def)
    qed
    ultimately show ?thesis using cs by (simp add: means_at mins_at)
  qed
  show ?thesis
    using means mins dropped kept by (auto simp: filter_and_scale_def)
qed
theorem event_reducer_witness:
  "\<exists>means mins.
     filter_and_scale
       [((''j12'', ''sample1''), 10), ((''j23'', ''sample1''), 20), ((''j12'', ''sample2''), 7)]
       2 ''mean'' = PerSample means \<and>
     filter_and_scale
       [((''j12'', ''sample1''), 10), ((''j23'', ''sample1''), 20), ((''j12'', ''sample2''), 7)]
       2 ''min'' = PerSample mins \<and>
     map_of means ''sample1'' = Some (FloatQuotient 30 2) \<and>
     exact_value (FloatQuotient 30 2) = Some 15 \<and>
     map_of mins ''sample1'' = Some (Least 10) \<and>
     map_of means ''sample2'' = None \<and>
     map_of mins ''sample2'' = None"
proof -
  let ?reads = "[((''j12'', ''sample1''), 10), ((''j23'', ''sample1''), 20),
                 ((''j12'', ''sample2''), 7 :: int)]"
  let ?js = "[''j12'', ''j23'']"
  have 1: "distinct (map fst ?reads)" by simp
  have 2: "\<forall>((j, s'), v) \<in> set ?reads. j \<in> set ?js" by simp
  have 3: "distinct ?js" by simp
  have 4: "int (length ?js) = 2" by simp
  have 5: "?reads \<noteq> []" by simp
  from event_reducer [OF 1 2 3 4 5, of "''mean''"]
  obtain means mins where
    a: "filter_and_scale ?reads 2 ''mean'' = PerSample means"
       "filter_and_scale ?reads 2 ''min'' = PerSample mins"
    and b: "\<And>s. (\<exists>j \<in> set ?js. map_of ?reads (j, s) = None) \<Longrightarrow>
            map_of means s = None \<and> map_of mins s = None"
    and c: "\<And>s. (\<forall>j \<in> set ?js. map_of ?reads (j, s) \<noteq> None) \<Longrightarrow>
            (int64 (\<Sum>j\<leftarrow>?js. the (map_of ?reads (j, s))) \<longrightarrow>
             map_of means s =
               Some (FloatQuotient (\<Sum>j\<leftarrow>?js. the (map_of ?reads (j, s))) 2)) \<and>
            map_of mins s =
              Some (Least (Min ((\<lambda>j. the (map_of ?reads (j, s))) ` set ?js)))"
    by blast
  have "map_of means ''sample1'' = Some (FloatQuotient 30 2) \<and>
        map_of mins ''sample1'' = Some (Least 10)"
    using c [of "''sample1''"] by (simp add: int64_def)
  moreover have "map_of means ''sample2'' = None \<and> map_of mins ''sample2'' = None"
    using b [of "''sample2''"] by simp
  moreover have "exact_value (FloatQuotient 30 2) = Some 15"
    by simp
  ultimately show ?thesis using a by blast
qed

subsection \<open>PSI of an event and the table of events\<close>



lemma single_event_psi_illegal:
  "illegal \<noteq> NoIllegal \<Longrightarrow>
   \<exists>e. single_event_psi event_id junction_locations illegal junction_reads_2d i1 i2 m method k
     = Inl e"
  by (cases illegal)
     (auto simp: single_event_psi_def Let_def maybe_reject_def drop_illegal_def
       split: sum.splits)

lemma calculate_psi_raises:
  "\<exists>e. calculate_psi events table i1 i2 reads_col m method k n_jobs = Inl e"
  by (auto simp: calculate_psi_def split: sum.splits list.splits)

lemma calculate_psi_sequential:
  "each_event events table i1 i2 m method k = Inr u \<Longrightarrow>
   calculate_psi events table i1 i2 reads_col m method k 1 = Inl AttributeError"
  by (simp add: calculate_psi_def maybe_parallelize_psi_def List.map_filter_simps)

text \<open>
  C3. A sample with 10 reads on isoform1's junction and 30 on each of isoform2's two
  junctions is kept by the classifier (rule 3), and the claim gives it the PSI
  \<open>30 / (10 + 30)\<close>. \<open>_single_event_psi\<close> returns \<open>None\<close> for the event: it
  returns at line 447, before the reduction and the quotient of lines 455 to 483.
\<close>

theorem psi_never_computed:
  "maybe_rejected_rows
     [(''sample1'', [(''j13'', Count 10), (''j12'', Count 30), (''j23'', Count 30)])]
     [''j13''] [''j12'', ''j23''] NoIllegal 3 10 10 =
     Inr [(''sample1'', [(''j13'', Count 10), (''j12'', Count 30), (''j23'', Count 30)], case3)] \<and>
   single_event_psi ''event1''
     [(''junction13'', ''j13''), (''junction12'', ''j12''), (''junction23'', ''j23'')] NoIllegal
     [(''sample1'', [(''j13'', Count 10), (''j12'', Count 30), (''j23'', Count 30)])]
     [''junction13''] [''junction12'', ''junction23''] 10 ''mean'' 10 = Inr None"
  by (simp add: single_event_psi_def frame_columns_def maybe_reject_def
      maybe_rejected_rows_def drop_illegal_def single_maybe_reject_def
      single_isoform_maybe_reject_def classify_rules_def check_two_or_more wrap64_def)

text \<open>
  C9. With the default \<open>n_jobs = -1\<close> \<open>calculate_psi\<close> returns no table: with no
  event it raises UnboundLocalError, and with an event whose sample has no reads at all
  it raises TypeError, where the claim has it return the empty table over the samples.
  (It returns a table for no other \<open>n_jobs\<close> either: lemma \<open>calculate_psi_raises\<close>.)
\<close>

theorem empty_result_default_jobs:
  "calculate_psi []
     [(''sample1'', [(''j13'', Count 10), (''j12'', Count 30), (''j23'', Count 30)])]
     [''junction13''] [''junction12'', ''junction23''] ''reads'' 10 ''mean'' 10 (- 1) =
     Inl UnboundLocalError \<and>
   calculate_psi
     [(''event1'', [(''junction13'', ''j13''), (''junction12'', ''j12''), (''junction23'', ''j23'')],
       NoIllegal)]
     [(''sample1'', [(''j13'', Count 0), (''j12'', Count 0), (''j23'', Count 0)])]
     [''junction13''] [''junction12'', ''junction23''] ''reads'' 10 ''mean'' 10 (- 1) =
     Inl TypeError"
  by (simp add: calculate_psi_def maybe_parallelize_psi_def bind_call_def
      single_event_psi_parameters_def)

subsection \<open>What reaches the PSI of an event\<close>





end
